theory Spec2Isabelle
  imports Complex_Main
begin

section \<open>Values: parsed JSON as Python sees it\<close>

text \<open>
  \<open>request.json\<close> and \<open>response.json()\<close> give Python values built from JSON: \<open>None\<close>,
  \<open>bool\<close>, \<open>int\<close>, \<open>float\<close>, \<open>str\<close>, \<open>list\<close> and \<open>dict\<close> with string keys. A dict is kept
  as the list of its items and read with \<open>map_of\<close>. Floats are taken as reals (no NaN, no
  infinities, no rounding); nothing below computes with them.
\<close>

datatype json =
    JNull
  | JBool bool
  | JInt int
  | JFloat real
  | JStr string
  | JArr "json list"
  | JObj "(string \<times> json) list"

text \<open>Python truth value, as tested by \<open>not x\<close>.\<close>

fun truthy :: "json \<Rightarrow> bool" where
  "truthy JNull = False"
| "truthy (JBool b) = b"
| "truthy (JInt i) = (i \<noteq> 0)"
| "truthy (JFloat x) = (x \<noteq> 0)"
| "truthy (JStr s) = (s \<noteq> [])"
| "truthy (JArr xs) = (xs \<noteq> [])"
| "truthy (JObj kv) = (kv \<noteq> [])"

fun py_type_name :: "json \<Rightarrow> string" where
  "py_type_name JNull = ''NoneType''"
| "py_type_name (JBool b) = ''bool''"
| "py_type_name (JInt i) = ''int''"
| "py_type_name (JFloat x) = ''float''"
| "py_type_name (JStr s) = ''str''"
| "py_type_name (JArr xs) = ''list''"
| "py_type_name (JObj kv) = ''dict''"

section \<open>Exceptions\<close>

text \<open>
  The classes the handler's \<open>except\<close> clauses tell apart. \<open>RequestException\<close> stands for
  \<open>requests.exceptions.RequestException\<close> and its subclasses (connection errors, timeouts,
  \<open>HTTPError\<close> from \<open>raise_for_status\<close>, \<open>JSONDecodeError\<close> from \<open>response.json()\<close>);
  \<open>HTTPException\<close> is what Flask raises when \<open>request.json\<close> cannot read the body. The
  string is \<open>str(e)\<close>.
\<close>

datatype exn_class =
  RequestException | KeyError | IndexError | TypeError | AttributeError | HTTPException

datatype exn = Exn exn_class string

fun exn_class_of :: "exn \<Rightarrow> exn_class" where
  "exn_class_of (Exn c m) = c"

fun exn_str :: "exn \<Rightarrow> string" where
  "exn_str (Exn c m) = m"

definition quoted :: "string \<Rightarrow> string" where
  "quoted s = CHR 0x27 # s @ [CHR 0x27]"

text \<open>\<open>d.get(k)\<close>: only a dict has the method; a missing key gives \<open>None\<close>.\<close>

fun dict_get :: "json \<Rightarrow> string \<Rightarrow> exn + json" where
  "dict_get (JObj kv) k = Inr (case map_of kv k of None \<Rightarrow> JNull | Some v \<Rightarrow> v)"
| "dict_get v k =
     Inl (Exn AttributeError
       (quoted (py_type_name v) @ '' object has no attribute '' @ quoted ''get''))"

text \<open>
  \<open>v[k]\<close> with a string key and \<open>v[i]\<close> with an index \<open>i \<ge> 0\<close>. Indexing a string gives the
  one-character string; a dict parsed from JSON has no integer key.
\<close>

fun getitem_key :: "json \<Rightarrow> string \<Rightarrow> exn + json" where
  "getitem_key (JObj kv) k =
     (case map_of kv k of None \<Rightarrow> Inl (Exn KeyError (quoted k)) | Some v \<Rightarrow> Inr v)"
| "getitem_key (JArr xs) k =
     Inl (Exn TypeError ''list indices must be integers or slices, not str'')"
| "getitem_key (JStr s) k =
     Inl (Exn TypeError ''string indices must be integers, not str'')"
| "getitem_key v k =
     Inl (Exn TypeError (quoted (py_type_name v) @ '' object is not subscriptable''))"

fun getitem_index :: "json \<Rightarrow> nat \<Rightarrow> exn + json" where
  "getitem_index (JArr xs) i =
     (if i < length xs then Inr (xs ! i) else Inl (Exn IndexError ''list index out of range''))"
| "getitem_index (JStr s) i =
     (if i < length s then Inr (JStr [s ! i])
      else Inl (Exn IndexError ''string index out of range''))"
| "getitem_index (JObj kv) i = Inl (Exn KeyError ''0'')"
| "getitem_index v i =
     Inl (Exn TypeError (quoted (py_type_name v) @ '' object is not subscriptable''))"

section \<open>The outside world\<close>

text \<open>
  A response of the inference service: its HTTP status code, the text of the \<open>HTTPError\<close>
  that \<open>raise_for_status\<close> raises for it, and its body as \<open>response.json()\<close> reads it
  (\<open>Inl\<close> the decoder's message when the body is not JSON).
\<close>

record response =
  status_code :: nat
  http_error :: string
  content :: "string + json"

text \<open>
  What one outbound call does: it fails at transport level or it is answered, after some
  time in either case.
\<close>

datatype outcome = Failed nat string | Replied nat response

fun duration :: "outcome \<Rightarrow> nat" where
  "duration (Failed d m) = d"
| "duration (Replied d r) = d"

text \<open>
  The environment of one request: the credential read at start-up
  (\<open>os.environ.get("MODEL_ACCESS_KEY")\<close>), what the submit call, the i-th status call and
  the fetch call do, and by how much the i-th \<open>time.sleep\<close> oversleeps.
\<close>

record env =
  MODEL_ACCESS_KEY :: "string option"
  submit :: outcome
  polls :: "nat \<Rightarrow> outcome"
  fetch :: outcome
  oversleep :: "nat \<Rightarrow> nat"

datatype url = Api_url | Status_url json | Result_url json

type_synonym headers = "(string \<times> string) list"

datatype event =
    Post url headers json
  | Get url headers
  | Sleep nat
  | Print string
  | Print_data string json

text \<open>The clock (\<open>time.time()\<close>) and the log of effects, each stamped with the clock.\<close>

record state =
  clock :: int
  trace :: "(int \<times> event) list"

definition emit :: "event \<Rightarrow> state \<Rightarrow> state" where
  "emit ev s = s\<lparr>trace := trace s @ [(clock s, ev)]\<rparr>"

definition advance :: "nat \<Rightarrow> state \<Rightarrow> state" where
  "advance d s = s\<lparr>clock := clock s + int d\<rparr>"

section \<open>Library calls\<close>

definition request_call :: "outcome \<Rightarrow> event \<Rightarrow> state \<Rightarrow> (exn + response) \<times> state" where
  "request_call out ev s =
     (case out of
        Failed d m \<Rightarrow> (Inl (Exn RequestException m), advance d (emit ev s))
      | Replied d r \<Rightarrow> (Inr r, advance d (emit ev s)))"

definition requests_post ::
  "outcome \<Rightarrow> url \<Rightarrow> headers \<Rightarrow> json \<Rightarrow> state \<Rightarrow> (exn + response) \<times> state" where
  "requests_post out u hs payload s = request_call out (Post u hs payload) s"

definition requests_get ::
  "outcome \<Rightarrow> url \<Rightarrow> headers \<Rightarrow> state \<Rightarrow> (exn + response) \<times> state" where
  "requests_get out u hs s = request_call out (Get u hs) s"

definition raise_for_status :: "response \<Rightarrow> exn + unit" where
  "raise_for_status r =
     (if 400 \<le> status_code r \<and> status_code r < 600
      then Inl (Exn RequestException (http_error r)) else Inr ())"

definition response_json :: "response \<Rightarrow> exn + json" where
  "response_json r =
     (case content r of Inl m \<Rightarrow> Inl (Exn RequestException m) | Inr j \<Rightarrow> Inr j)"

definition time_sleep :: "nat \<Rightarrow> nat \<Rightarrow> state \<Rightarrow> state" where
  "time_sleep extra secs s = advance (secs + extra) (emit (Sleep secs) s)"

definition print_msg :: "string \<Rightarrow> state \<Rightarrow> state" where
  "print_msg m s = emit (Print m) s"

definition print_data :: "string \<Rightarrow> json \<Rightarrow> state \<Rightarrow> state" where
  "print_data m v s = emit (Print_data m v) s"

section \<open>The handler\<close>

type_synonym reply = "nat \<times> json"

definition jsonify :: "(string \<times> json) list \<Rightarrow> json" where
  "jsonify kv = JObj kv"

definition POLL_INTERVAL :: nat where
  "POLL_INTERVAL = 3"

definition MODEL_ID :: string where
  "MODEL_ID = ''fal-ai/flux/schnell''"

definition timeout :: int where
  "timeout = 120"

text \<open>How a statement ends: it falls through, the handler returns, or it raises.\<close>

datatype flow = Done | Return reply | Raise exn

text \<open>
  The \<open>while True\<close> loop. \<open>i\<close> counts the status calls made so far. Every round that
  goes on moves the clock by at least the poll interval, so the loop ends.
\<close>

function poll_loop ::
  "env \<Rightarrow> headers \<Rightarrow> json \<Rightarrow> int \<Rightarrow> nat \<Rightarrow> state \<Rightarrow> flow \<times> state" where
  "poll_loop e hs request_id start_time i s =
     (if clock s - start_time > timeout
      then (Return (504, jsonify [(''error'',
              JStr ''Request timed out while waiting for model.'')]), s)
      else
        (case requests_get (polls e i) (Status_url request_id) hs s of
           (Inl ex, s1) \<Rightarrow> (Raise ex, s1)
         | (Inr status_response, s1) \<Rightarrow>
             (case raise_for_status status_response of
                Inl ex \<Rightarrow> (Raise ex, s1)
              | Inr u \<Rightarrow>
                  (case response_json status_response of
                     Inl ex \<Rightarrow> (Raise ex, s1)
                   | Inr status_data \<Rightarrow>
                       (case dict_get status_data ''status'' of
                          Inl ex \<Rightarrow> (Raise ex, s1)
                        | Inr status \<Rightarrow>
                            if status = JStr ''COMPLETE'' then (Done, s1)
                            else if status \<in> set [JStr ''FAILED'', JStr ''ERROR'']
                            then (Return (500, jsonify [(''error'',
                                    JStr ''Model generation failed.'')]), s1)
                            else poll_loop e hs request_id start_time (Suc i)
                                   (time_sleep (oversleep e i) POLL_INTERVAL s1))))))"
  by pat_completeness auto
termination
  by (relation "measure (\<lambda>(e, hs, request_id, start_time, i, s).
                  nat (start_time + timeout + 1 - clock s))")
     (auto simp: requests_get_def request_call_def advance_def emit_def time_sleep_def
        POLL_INTERVAL_def timeout_def split: outcome.splits)

declare poll_loop.simps [simp del]

text \<open>
  \<open>result_data["result"]["output"]["images"][0]["url"]\<close>, left to right; the first
  subscript that fails raises.
\<close>

fun and_then :: "exn + 'a \<Rightarrow> ('a \<Rightarrow> exn + 'b) \<Rightarrow> exn + 'b" where
  "and_then (Inl ex) f = Inl ex"
| "and_then (Inr v) f = f v"

definition extract_image_url :: "json \<Rightarrow> exn + json" where
  "extract_image_url result_data =
     and_then (and_then (and_then (and_then
       (getitem_key result_data ''result'')
       (\<lambda>v. getitem_key v ''output''))
       (\<lambda>v. getitem_key v ''images''))
       (\<lambda>v. getitem_index v 0))
       (\<lambda>v. getitem_key v ''url'')"

text \<open>
  Steps 3 and 4 of the \<open>try\<close> block: fetch the result and extract the URL. The inner
  \<open>except (KeyError, IndexError, TypeError)\<close> prints the structure and returns; any other
  class goes on to the outer handlers. The result is \<open>Inr\<close> a returned reply or \<open>Inl\<close> a
  raised exception.
\<close>

definition fetch_result ::
  "env \<Rightarrow> headers \<Rightarrow> json \<Rightarrow> state \<Rightarrow> (exn + reply) \<times> state" where
  "fetch_result e hs request_id s =
     (case requests_get (fetch e) (Result_url request_id) hs s of
        (Inl ex, s1) \<Rightarrow> (Inl ex, s1)
      | (Inr result_response, s1) \<Rightarrow>
          (case raise_for_status result_response of
             Inl ex \<Rightarrow> (Inl ex, s1)
           | Inr u \<Rightarrow>
               (case response_json result_response of
                  Inl ex \<Rightarrow> (Inl ex, s1)
                | Inr result_data \<Rightarrow>
                    (case extract_image_url result_data of
                       Inr image_url \<Rightarrow>
                         (Inr (200, jsonify [(''imageUrl'', image_url)]), s1)
                     | Inl ex \<Rightarrow>
                         if exn_class_of ex \<in> set [KeyError, IndexError, TypeError]
                         then (Inr (500, jsonify [(''error'',
                                 JStr ''Could not parse image URL from model response.'')]),
                               print_data ''Unexpected result structure:'' result_data s1)
                         else (Inl ex, s1)))))"

definition key_missing :: "env \<Rightarrow> bool" where
  "key_missing e = (case MODEL_ACCESS_KEY e of None \<Rightarrow> True | Some k \<Rightarrow> k = [])"

definition key_text :: "env \<Rightarrow> string" where
  "key_text e = (case MODEL_ACCESS_KEY e of None \<Rightarrow> ''None'' | Some k \<Rightarrow> k)"

definition request_headers :: "env \<Rightarrow> headers" where
  "request_headers e =
     [(''Authorization'', ''Bearer '' @ key_text e), (''Content-Type'', ''application/json'')]"

definition submit_payload :: "json \<Rightarrow> json" where
  "submit_payload prompt =
     JObj [(''model_id'', JStr MODEL_ID),
           (''input'', JObj [(''prompt'', prompt), (''output_format'', JStr ''landscape_4_3'')])]"

text \<open>
  The \<open>try\<close> block. Its first argument after the environment is what \<open>request.json\<close>
  gives: the parsed body, or the exception Flask raises when the body is not JSON.
\<close>

definition try_block :: "env \<Rightarrow> exn + json \<Rightarrow> state \<Rightarrow> (exn + reply) \<times> state" where
  "try_block e request_json s =
     (case request_json of
        Inl ex \<Rightarrow> (Inl ex, s)
      | Inr data \<Rightarrow>
          (case dict_get data ''prompt'' of
             Inl ex \<Rightarrow> (Inl ex, s)
           | Inr prompt \<Rightarrow>
               if \<not> truthy prompt
               then (Inr (400, jsonify [(''error'', JStr ''No prompt provided.'')]), s)
               else
                 (case requests_post (submit e) Api_url (request_headers e)
                         (submit_payload prompt) s of
                    (Inl ex, s1) \<Rightarrow> (Inl ex, s1)
                  | (Inr submit_response, s1) \<Rightarrow>
                      (case raise_for_status submit_response of
                         Inl ex \<Rightarrow> (Inl ex, s1)
                       | Inr u \<Rightarrow>
                           (case response_json submit_response of
                              Inl ex \<Rightarrow> (Inl ex, s1)
                            | Inr submit_data \<Rightarrow>
                                (case dict_get submit_data ''request_id'' of
                                   Inl ex \<Rightarrow> (Inl ex, s1)
                                 | Inr request_id \<Rightarrow>
                                     if \<not> truthy request_id
                                     then (Inr (500, jsonify [(''error'',
                                             JStr ''Failed to submit job to DO.'')]), s1)
                                     else
                                       (case poll_loop e (request_headers e) request_id
                                               (clock s1) 0 s1 of
                                          (Done, s2) \<Rightarrow>
                                            fetch_result e (request_headers e) request_id s2
                                        | (Return r, s2) \<Rightarrow> (Inr r, s2)
                                        | (Raise ex, s2) \<Rightarrow> (Inl ex, s2))))))))"

text \<open>
  The two outer \<open>except\<close> clauses, in their order: \<open>RequestException\<close> first, then
  every other \<open>Exception\<close>. Each prints and returns a reply.
\<close>

definition except_clauses :: "exn \<Rightarrow> state \<Rightarrow> reply \<times> state" where
  "except_clauses ex s =
     (if exn_class_of ex = RequestException
      then ((502, jsonify [(''error'', JStr (''API request failed: '' @ exn_str ex))]),
            print_msg (''Request failed: '' @ exn_str ex) s)
      else ((500, jsonify [(''error'',
               JStr (''An internal server error occurred: '' @ exn_str ex))]),
            print_msg (''An error occurred: '' @ exn_str ex) s))"

text \<open>The whole view function: the credential check, then the \<open>try\<close> statement.\<close>

definition generate_image :: "env \<Rightarrow> exn + json \<Rightarrow> state \<Rightarrow> reply \<times> state" where
  "generate_image e request_json s =
     (if key_missing e
      then ((500, jsonify [(''error'',
              JStr ''Server is missing MODEL_ACCESS_KEY environment variable.'')]), s)
      else
        (case try_block e request_json s of
           (Inr r, s1) \<Rightarrow> (r, s1)
         | (Inl ex, s1) \<Rightarrow> except_clauses ex s1))"

section \<open>Vocabulary of the properties\<close>

text \<open>The \<open>error\<close> text of a reply body that is exactly \<open>{"error": text}\<close>.\<close>

fun error_field :: "json \<Rightarrow> string option" where
  "error_field (JObj [(k, JStr m)]) = (if k = ''error'' then Some m else None)"
| "error_field b = None"

text \<open>The value under \<open>prompt\<close> in a request body that is a JSON object.\<close>

definition prompt_of :: "exn + json \<Rightarrow> json option" where
  "prompt_of rq = (case rq of Inr (JObj kv) \<Rightarrow> map_of kv ''prompt'' | _ \<Rightarrow> None)"


text \<open>The value under \<open>request_id\<close> in a submit response body that is a JSON object.\<close>

definition request_id_of :: "json \<Rightarrow> json option" where
  "request_id_of b = (case b of JObj kv \<Rightarrow> map_of kv ''request_id'' | _ \<Rightarrow> None)"

text \<open>
  The spec's condition on the submit response, in its words: the body lacks a job handle
  (no \<open>request_id\<close> field, or an empty one).
\<close>

definition lacks_handle :: "json \<Rightarrow> bool" where
  "lacks_handle b \<longleftrightarrow> (case request_id_of b of None \<Rightarrow> True | Some v \<Rightarrow> \<not> truthy v)"

text \<open>
  The JSON body of a call that was answered with a non-error HTTP status (not 4xx, not
  5xx) and a body that is JSON.
\<close>

definition answered :: "outcome \<Rightarrow> json option" where
  "answered out =
     (case out of
        Failed d m \<Rightarrow> None
      | Replied d r \<Rightarrow>
          if 400 \<le> status_code r \<and> status_code r < 600 then None
          else (case content r of Inl m \<Rightarrow> None | Inr b \<Rightarrow> Some b))"

text \<open>The job handle a successful submit call returns: a truthy \<open>request_id\<close>.\<close>

definition submit_handle :: "env \<Rightarrow> json option" where
  "submit_handle e =
     (case answered (submit e) of
        None \<Rightarrow> None
      | Some b \<Rightarrow>
          (case request_id_of b of
             None \<Rightarrow> None
           | Some v \<Rightarrow> if truthy v then Some v else None))"

text \<open>
  The request gets as far as polling: the credential is set, the body is a JSON object
  with a truthy prompt \<open>p\<close>, and the submit call returns the job handle \<open>rid\<close>.
\<close>

definition accepted :: "env \<Rightarrow> exn + json \<Rightarrow> json \<Rightarrow> json \<Rightarrow> bool" where
  "accepted e rq p rid \<longleftrightarrow>
     \<not> key_missing e \<and> prompt_of rq = Some p \<and> truthy p \<and> submit_handle e = Some rid"

text \<open>
  The status a status call reports: the call is answered with a JSON object, and the
  status is what \<open>.get("status")\<close> reads from it (\<open>None\<close> when the field is absent).
\<close>

definition poll_status :: "outcome \<Rightarrow> json option" where
  "poll_status out =
     (case answered out of
        Some (JObj kv) \<Rightarrow> Some (case map_of kv ''status'' of None \<Rightarrow> JNull | Some v \<Rightarrow> v)
      | _ \<Rightarrow> None)"

definition terminal :: "json \<Rightarrow> bool" where
  "terminal st \<longleftrightarrow> st \<in> set [JStr ''COMPLETE'', JStr ''FAILED'', JStr ''ERROR'']"

definition pending :: "outcome \<Rightarrow> bool" where
  "pending out \<longleftrightarrow> (case poll_status out of None \<Rightarrow> False | Some st \<Rightarrow> \<not> terminal st)"

text \<open>
  Time taken by round \<open>j\<close> of the loop when it goes on: the status call and the sleep.
  \<open>elapsed e n\<close> is the time from the start of the loop to its deadline check number
  \<open>n\<close> (counted from 0), when the first \<open>n\<close> rounds all go on.
\<close>

definition round_time :: "env \<Rightarrow> nat \<Rightarrow> nat" where
  "round_time e j = duration (polls e j) + POLL_INTERVAL + oversleep e j"

definition elapsed_from :: "env \<Rightarrow> nat \<Rightarrow> nat \<Rightarrow> nat" where
  "elapsed_from e i n = (\<Sum>j<n. round_time e (i + j))"

definition elapsed :: "env \<Rightarrow> nat \<Rightarrow> nat" where
  "elapsed e n = (\<Sum>j<n. round_time e j)"

text \<open>
  The first \<open>n\<close> status calls report a non-terminal status and the timeout is not
  exceeded at the deadline check that follows them.
\<close>

definition pending_until :: "env \<Rightarrow> nat \<Rightarrow> bool" where
  "pending_until e n \<longleftrightarrow> (\<forall>j<n. pending (polls e j)) \<and> int (elapsed e n) \<le> timeout"

text \<open>
  The state after status call \<open>i\<close>, and after \<open>n\<close> whole rounds (status call, then
  sleep) starting with status call \<open>i\<close>.
\<close>

definition status_call :: "env \<Rightarrow> headers \<Rightarrow> json \<Rightarrow> nat \<Rightarrow> state \<Rightarrow> state" where
  "status_call e hs rid i s =
     advance (duration (polls e i)) (emit (Get (Status_url rid) hs) s)"

primrec rounds :: "env \<Rightarrow> headers \<Rightarrow> json \<Rightarrow> nat \<Rightarrow> nat \<Rightarrow> state \<Rightarrow> state" where
  "rounds e hs rid i 0 s = s"
| "rounds e hs rid i (Suc n) s =
     rounds e hs rid (Suc i) n
       (time_sleep (oversleep e i) POLL_INTERVAL (status_call e hs rid i s))"

text \<open>The state after the submit call with prompt \<open>p\<close>: where the loop starts.\<close>

definition submitted :: "env \<Rightarrow> json \<Rightarrow> state \<Rightarrow> state" where
  "submitted e p s =
     advance (duration (submit e))
       (emit (Post Api_url (request_headers e) (submit_payload p)) s)"

text \<open>
  Effects in the order they happen; the outbound network calls among them; and the
  calls and sleeps (everything but printing).
\<close>

definition effects :: "state \<Rightarrow> event list" where
  "effects s = map snd (trace s)"

fun outbound :: "event \<Rightarrow> bool" where
  "outbound (Post u hs p) = True"
| "outbound (Get u hs) = True"
| "outbound ev = False"

fun printing :: "event \<Rightarrow> bool" where
  "printing (Print m) = True"
| "printing (Print_data m v) = True"
| "printing ev = False"

definition calls :: "state \<Rightarrow> event list" where
  "calls s = filter outbound (effects s)"

definition actions :: "state \<Rightarrow> event list" where
  "actions s = filter (\<lambda>ev. \<not> printing ev) (effects s)"

text \<open>\<open>n\<close> rounds of polling that go on: a status call, then a sleep of the poll interval.\<close>

definition polling_log :: "headers \<Rightarrow> json \<Rightarrow> nat \<Rightarrow> event list" where
  "polling_log hs rid n =
     concat (replicate n [Get (Status_url rid) hs, Sleep POLL_INTERVAL])"

text \<open>
  The spec's path into the fetch response, in its words: result, output, images, first
  element, url; each level but the last an object, \<open>images\<close> a non-empty list.
\<close>

definition image_url_of :: "json \<Rightarrow> json option" where
  "image_url_of b =
     (case b of
        JObj kv0 \<Rightarrow>
          (case map_of kv0 ''result'' of
             Some (JObj kv1) \<Rightarrow>
               (case map_of kv1 ''output'' of
                  Some (JObj kv2) \<Rightarrow>
                    (case map_of kv2 ''images'' of
                       Some (JArr (JObj kv3 # others)) \<Rightarrow> map_of kv3 ''url''
                     | _ \<Rightarrow> None)
                | _ \<Rightarrow> None)
           | _ \<Rightarrow> None)
      | _ \<Rightarrow> None)"

text \<open>
  Status calls and sleeps, and the shape of what the loop logs: a status call stamped
  within the timeout window counted from \<open>start\<close>, then a sleep of the poll interval,
  and so on; the list may end after a status call.
\<close>

fun is_status_call :: "event \<Rightarrow> bool" where
  "is_status_call (Get (Status_url r) hs) = True"
| "is_status_call ev = False"

fun is_fetch_call :: "event \<Rightarrow> bool" where
  "is_fetch_call (Get (Result_url r) hs) = True"
| "is_fetch_call ev = False"

fun is_sleep :: "event \<Rightarrow> bool" where
  "is_sleep (Sleep d) = True"
| "is_sleep ev = False"

definition polling :: "int \<times> event \<Rightarrow> bool" where
  "polling x \<longleftrightarrow> is_status_call (snd x) \<or> is_sleep (snd x)"

fun poll_shape :: "int \<Rightarrow> (int \<times> event) list \<Rightarrow> bool" where
  "poll_shape start [] = True"
| "poll_shape start [x] = (is_status_call (snd x) \<and> fst x - start \<le> timeout)"
| "poll_shape start (x # y # rest) =
     (is_status_call (snd x) \<and> fst x - start \<le> timeout
      \<and> snd y = Sleep POLL_INTERVAL \<and> fst x \<le> fst y \<and> poll_shape start rest)"

text \<open>
  A failed lookup of the kind the inner \<open>except (KeyError, IndexError, TypeError)\<close>
  catches.
\<close>

definition parse_failure :: "exn + json \<Rightarrow> bool" where
  "parse_failure x \<longleftrightarrow>
     (case x of
        Inl ex \<Rightarrow> exn_class_of ex \<in> set [KeyError, IndexError, TypeError]
      | Inr v \<Rightarrow> False)"

text \<open>
  The state after \<open>n\<close> rounds that go on and one more status call, and the state after
  the fetch call.
\<close>

definition polled :: "env \<Rightarrow> headers \<Rightarrow> json \<Rightarrow> nat \<Rightarrow> state \<Rightarrow> state" where
  "polled e hs rid n s = status_call e hs rid n (rounds e hs rid 0 n s)"

definition fetched :: "env \<Rightarrow> headers \<Rightarrow> json \<Rightarrow> state \<Rightarrow> state" where
  "fetched e hs rid s = advance (duration (fetch e)) (emit (Get (Result_url rid) hs) s)"


text \<open>The fixed replies of the handler.\<close>

definition no_prompt :: reply where
  "no_prompt = (400, JObj [(''error'', JStr ''No prompt provided.'')])"

definition submit_failed :: reply where
  "submit_failed = (500, JObj [(''error'', JStr ''Failed to submit job to DO.'')])"



definition timed_out :: reply where
  "timed_out = (504, JObj [(''error'', JStr ''Request timed out while waiting for model.'')])"

definition job_failed :: reply where
  "job_failed = (500, JObj [(''error'', JStr ''Model generation failed.'')])"

definition unparseable :: reply where
  "unparseable = (500, JObj [(''error'', JStr ''Could not parse image URL from model response.'')])"

text \<open>
  What the loop leaves behind, whatever the service does: it logs only status calls and
  sleeps, in the shape above; it returns the timeout reply only at a deadline check
  that finds the window exceeded, which is either the first one or right after a sleep;
  in every other case the last thing it did was a status call.
\<close>

definition loop_outcome :: "int \<Rightarrow> state \<Rightarrow> flow \<times> state \<Rightarrow> (int \<times> event) list \<Rightarrow> bool" where
  "loop_outcome st s x new \<longleftrightarrow>
     trace (snd x) = trace s @ new \<and> list_all polling new \<and> poll_shape st new
     \<and> (case fst x of
          Return r \<Rightarrow>
            r = timed_out \<and> timeout < clock (snd x) - st
              \<and> (if new = [] then timeout < clock s - st
                  else snd (last new) = Sleep POLL_INTERVAL)
            \<or> r = job_failed \<and> new \<noteq> [] \<and> is_status_call (snd (last new))
        | Done \<Rightarrow> new \<noteq> [] \<and> is_status_call (snd (last new))
        | Raise ex \<Rightarrow> new \<noteq> [] \<and> is_status_call (snd (last new)))"

text \<open>
  What a run of the handler leaves behind: the reply has one of five status codes, an
  error reply is exactly \<open>{"error": text}\<close>, a success reply is exactly
  \<open>{"imageUrl": value}\<close>, the status calls and sleeps have the shape above, and the
  timeout reply comes right after a sleep, with the window exceeded.
\<close>

definition run_outcome :: "int \<Rightarrow> state \<Rightarrow> reply \<times> state \<Rightarrow> (int \<times> event) list \<Rightarrow> bool" where
  "run_outcome st s x new \<longleftrightarrow>
     trace (snd x) = trace s @ new
     \<and> poll_shape st (filter polling new)
     \<and> fst (fst x) \<in> {200, 400, 500, 502, 504}
     \<and> (fst (fst x) \<noteq> 200 \<longrightarrow> error_field (snd (fst x)) \<noteq> None)
     \<and> (fst (fst x) = 200 \<longrightarrow> (\<exists>u. snd (fst x) = JObj [(''imageUrl'', u)]))
     \<and> (fst (fst x) = 504 \<longrightarrow>
          new \<noteq> [] \<and> snd (last new) = Sleep POLL_INTERVAL \<and> timeout < clock (snd x) - st)"

section \<open>A sample run\<close>

text \<open>
  A service that accepts the job, reports it in progress twice and then complete, and
  returns one image; every call takes a time unit or two. The properties below are
  exercised on it and on variations of it.
\<close>

definition ok_response :: "json \<Rightarrow> response" where
  "ok_response b = \<lparr>status_code = 200, http_error = [], content = Inr b\<rparr>"

definition example_result :: json where
  "example_result =
     JObj [(''result'', JObj [(''output'', JObj [(''images'',
       JArr [JObj [(''url'', JStr ''https://x/y.png'')]])])])]"

definition example_env :: env where
  "example_env =
     \<lparr>MODEL_ACCESS_KEY = Some ''secret'',
      submit = Replied 2 (ok_response (JObj [(''request_id'', JStr ''job-1'')])),
      polls = (\<lambda>i. Replied 1 (ok_response
                 (JObj [(''status'', JStr (if i < 2 then ''IN_PROGRESS'' else ''COMPLETE''))]))),
      fetch = Replied 1 (ok_response example_result),
      oversleep = (\<lambda>i. 0)\<rparr>"

definition example_request :: "exn + json" where
  "example_request = Inr (JObj [(''prompt'', JStr ''a cat'')])"

definition example_start :: state where
  "example_start = \<lparr>clock = 1000, trace = []\<rparr>"

text \<open>
  Variations: the job fails at the second status call; the job never leaves the queue
  while submitting takes 500 time units and every status call 50; the result has no
  image; the submit response has no handle.
\<close>

definition failing_env :: env where
  "failing_env = example_env\<lparr>polls := (\<lambda>i. Replied 1 (ok_response
      (JObj [(''status'', JStr (if i < 1 then ''IN_QUEUE'' else ''FAILED''))])))\<rparr>"

definition stalled_env :: env where
  "stalled_env = example_env
     \<lparr>submit := Replied 500 (ok_response (JObj [(''request_id'', JStr ''job-1'')])),
      polls := (\<lambda>i. Replied 50 (ok_response (JObj [(''status'', JStr ''IN_PROGRESS'')])))\<rparr>"

definition garbled_env :: env where
  "garbled_env = example_env\<lparr>fetch := Replied 1 (ok_response
      (JObj [(''result'', JObj [(''output'', JObj [(''images'', JArr [])])])]))\<rparr>"

definition handleless_env :: env where
  "handleless_env = example_env\<lparr>submit := Replied 2 (ok_response (JObj []))\<rparr>"




section \<open>The loop, round by round\<close>

lemma poll_loop_timeout:
  "clock s - st > timeout \<Longrightarrow>
     poll_loop e hs rid st i s =
       (Return (504, JObj [(''error'', JStr ''Request timed out while waiting for model.'')]), s)"
  by (subst poll_loop.simps) (simp add: jsonify_def)

lemma answered_SomeD:
  "answered out = Some b \<Longrightarrow>
     \<exists>d r. out = Replied d r \<and> \<not> (400 \<le> status_code r \<and> status_code r < 600)
       \<and> content r = Inr b"
  by (auto simp: answered_def split: outcome.splits if_splits sum.splits)

lemma poll_statusD:
  assumes "poll_status out = Some v"
  shows "\<exists>d r kv. out = Replied d r \<and> \<not> (400 \<le> status_code r \<and> status_code r < 600)
       \<and> content r = Inr (JObj kv) \<and> dict_get (JObj kv) ''status'' = Inr v"
proof -
  from assms obtain kv where b: "answered out = Some (JObj kv)"
    and v: "v = (case map_of kv ''status'' of None \<Rightarrow> JNull | Some w \<Rightarrow> w)"
    by (auto simp: poll_status_def split: option.splits json.splits)
  from answered_SomeD [OF b] obtain d r where "out = Replied d r"
    "\<not> (400 \<le> status_code r \<and> status_code r < 600)" "content r = Inr (JObj kv)"
    by blast
  with v show ?thesis by simp
qed

lemma raise_for_status_ok:
  "\<not> (400 \<le> status_code r \<and> status_code r < 600) \<Longrightarrow> raise_for_status r = Inr ()"
  by (simp add: raise_for_status_def)

lemma poll_loop_read:
  assumes "\<not> clock s - st > timeout" and "poll_status (polls e i) = Some v"
  shows "poll_loop e hs rid st i s =
     (if v = JStr ''COMPLETE'' then (Done, status_call e hs rid i s)
      else if v = JStr ''FAILED'' \<or> v = JStr ''ERROR''
      then (Return (500, JObj [(''error'', JStr ''Model generation failed.'')]),
            status_call e hs rid i s)
      else poll_loop e hs rid st (Suc i)
             (time_sleep (oversleep e i) POLL_INTERVAL (status_call e hs rid i s)))"
proof -
  from poll_statusD [OF assms(2)] obtain d r kv where
    out: "polls e i = Replied d r" and
    ok: "\<not> (400 \<le> status_code r \<and> status_code r < 600)" and
    body: "content r = Inr (JObj kv)" and
    get: "dict_get (JObj kv) ''status'' = Inr v"
    by blast
  show ?thesis
    using assms(1)
    by (subst poll_loop.simps)
       (simp add: out body get raise_for_status_ok [OF ok] requests_get_def request_call_def
          response_json_def status_call_def jsonify_def del: dict_get.simps)
qed

lemma poll_loop_transport:
  assumes "\<not> clock s - st > timeout" and "polls e i = Failed d m"
  shows "poll_loop e hs rid st i s = (Raise (Exn RequestException m), status_call e hs rid i s)"
  using assms
  by (subst poll_loop.simps) (simp add: requests_get_def request_call_def status_call_def)


lemma poll_loop_pending:
  assumes "\<not> clock s - st > timeout" and "pending (polls e i)"
  shows "poll_loop e hs rid st i s =
     poll_loop e hs rid st (Suc i)
       (time_sleep (oversleep e i) POLL_INTERVAL (status_call e hs rid i s))"
proof -
  from assms(2) obtain v where v: "poll_status (polls e i) = Some v" and nt: "\<not> terminal v"
    by (auto simp: pending_def split: option.splits)
  from nt show ?thesis
    by (simp add: poll_loop_read [OF assms(1) v] terminal_def)
qed

lemma elapsed_from_Suc:
  "elapsed_from e i (Suc n) = round_time e i + elapsed_from e (Suc i) n"
  unfolding elapsed_from_def by (subst sum.lessThan_Suc_shift) simp

lemma elapsed_from_0 [simp]: "elapsed_from e i 0 = 0"
  by (simp add: elapsed_from_def)

lemma elapsed_eq: "elapsed e n = elapsed_from e 0 n"
  by (simp add: elapsed_def elapsed_from_def)

lemma clock_status_call [simp]:
  "clock (status_call e hs rid i s) = clock s + int (duration (polls e i))"
  by (simp add: status_call_def advance_def emit_def)

lemma trace_status_call [simp]:
  "trace (status_call e hs rid i s) = trace s @ [(clock s, Get (Status_url rid) hs)]"
  by (simp add: status_call_def advance_def emit_def)

lemma clock_time_sleep [simp]:
  "clock (time_sleep x d s) = clock s + int d + int x"
  by (simp add: time_sleep_def advance_def emit_def)

lemma trace_time_sleep [simp]:
  "trace (time_sleep x d s) = trace s @ [(clock s, Sleep d)]"
  by (simp add: time_sleep_def advance_def emit_def)

lemma clock_rounds:
  "clock (rounds e hs rid i n s) = clock s + int (elapsed_from e i n)"
  by (induction n arbitrary: i s) (simp_all add: elapsed_from_Suc round_time_def)

lemma effects_rounds:
  "effects (rounds e hs rid i n s) = effects s @ polling_log hs rid n"
  by (induction n arbitrary: i s) (simp_all add: effects_def polling_log_def)

lemma poll_loop_rounds:
  assumes "\<forall>j<n. pending (polls e (i + j))"
    and "clock s + int (elapsed_from e i n) - st \<le> timeout"
  shows "poll_loop e hs rid st i s = poll_loop e hs rid st (i + n) (rounds e hs rid i n s)"
  using assms
proof (induction n arbitrary: i s)
  case 0
  show ?case by simp
next
  case (Suc n)
  let ?s1 = "time_sleep (oversleep e i) POLL_INTERVAL (status_call e hs rid i s)"
  from Suc.prems(2) have now: "\<not> clock s - st > timeout"
    by (simp add: elapsed_from_Suc)
  from Suc.prems(1) have first: "pending (polls e i)"
    by (metis add.right_neutral zero_less_Suc)
  have rest: "\<forall>j<n. pending (polls e (Suc i + j))"
    using Suc.prems(1) by (metis Suc_less_eq add_Suc_shift)
  have window: "clock ?s1 + int (elapsed_from e (Suc i) n) - st \<le> timeout"
    using Suc.prems(2) by (simp add: elapsed_from_Suc round_time_def)
  have "poll_loop e hs rid st i s = poll_loop e hs rid st (Suc i) ?s1"
    by (rule poll_loop_pending [OF now first])
  also have "\<dots> = poll_loop e hs rid st (Suc i + n) (rounds e hs rid (Suc i) n ?s1)"
    by (rule Suc.IH [OF rest window])
  finally show ?case by simp
qed

section \<open>Reading the fetched result\<close>

lemma extract_image_url_Some:
  "image_url_of b = Some u \<Longrightarrow> extract_image_url b = Inr u"
  by (auto simp: image_url_of_def extract_image_url_def
        split: json.splits option.splits list.splits)

lemma extract_image_url_None:
  "image_url_of b = None \<Longrightarrow> parse_failure (extract_image_url b)"
  apply (auto simp: image_url_of_def extract_image_url_def parse_failure_def
        split: json.splits option.splits list.splits)
  done



section \<open>The handler, stage by stage\<close>

lemma prompt_ofD:
  "prompt_of rq = Some p \<Longrightarrow> \<exists>kv. rq = Inr (JObj kv) \<and> map_of kv ''prompt'' = Some p"
  by (auto simp: prompt_of_def split: sum.splits json.splits)

lemma submit_handleD:
  assumes "submit_handle e = Some rid"
  shows "\<exists>d r kv. submit e = Replied d r
           \<and> \<not> (400 \<le> status_code r \<and> status_code r < 600)
           \<and> content r = Inr (JObj kv) \<and> map_of kv ''request_id'' = Some rid \<and> truthy rid"
proof -
  from assms obtain b where b: "answered (submit e) = Some b"
    and rid: "request_id_of b = Some rid" and t: "truthy rid"
    by (auto simp: submit_handle_def split: option.splits if_splits)
  from rid obtain kv where kv: "b = JObj kv" "map_of kv ''request_id'' = Some rid"
    by (auto simp: request_id_of_def split: json.splits)
  from answered_SomeD [OF b] kv t show ?thesis by blast
qed

lemma try_block_accepted:
  assumes "accepted e rq p rid"
  shows "try_block e rq s =
     (case poll_loop e (request_headers e) rid (clock (submitted e p s)) 0 (submitted e p s) of
        (Done, s2) \<Rightarrow> fetch_result e (request_headers e) rid s2
      | (Return r, s2) \<Rightarrow> (Inr r, s2)
      | (Raise ex, s2) \<Rightarrow> (Inl ex, s2))"
proof -
  from assms have p: "prompt_of rq = Some p" and tp: "truthy p"
    and h: "submit_handle e = Some rid"
    by (simp_all add: accepted_def)
  from prompt_ofD [OF p] obtain kv where rq: "rq = Inr (JObj kv)"
    and kv: "map_of kv ''prompt'' = Some p" by blast
  from submit_handleD [OF h] obtain d r kv' where out: "submit e = Replied d r"
    and ok: "\<not> (400 \<le> status_code r \<and> status_code r < 600)"
    and body: "content r = Inr (JObj kv')" and rid: "map_of kv' ''request_id'' = Some rid"
    and tr: "truthy rid" by blast
  show ?thesis
    by (simp add: try_block_def rq kv tp out body rid tr raise_for_status_ok [OF ok]
          requests_post_def request_call_def response_json_def submitted_def)
qed

lemma generate_image_accepted:
  assumes "accepted e rq p rid"
  shows "generate_image e rq s =
     (case poll_loop e (request_headers e) rid (clock (submitted e p s)) 0 (submitted e p s) of
        (Done, s2) \<Rightarrow>
          (case fetch_result e (request_headers e) rid s2 of
             (Inr r, s3) \<Rightarrow> (r, s3)
           | (Inl ex, s3) \<Rightarrow> except_clauses ex s3)
      | (Return r, s2) \<Rightarrow> (r, s2)
      | (Raise ex, s2) \<Rightarrow> except_clauses ex s2)"
proof -
  from assms have "\<not> key_missing e" by (simp add: accepted_def)
  then show ?thesis
    by (simp add: generate_image_def try_block_accepted [OF assms]
          split: prod.splits flow.splits)
qed

lemma poll_loop_until:
  assumes "pending_until e n"
  shows "poll_loop e hs rid (clock s) 0 s =
         poll_loop e hs rid (clock s) n (rounds e hs rid 0 n s)"
    and "\<not> clock (rounds e hs rid 0 n s) - clock s > timeout"
proof -
  from assms have a: "\<forall>j<n. pending (polls e (0 + j))"
    and b: "clock s + int (elapsed_from e 0 n) - clock s \<le> timeout"
    by (simp_all add: pending_until_def elapsed_eq)
  from poll_loop_rounds [OF a b]
  show "poll_loop e hs rid (clock s) 0 s =
         poll_loop e hs rid (clock s) n (rounds e hs rid 0 n s)" by simp
  from b show "\<not> clock (rounds e hs rid 0 n s) - clock s > timeout"
    by (simp add: clock_rounds)
qed

lemma poll_loop_until_read:
  assumes "pending_until e n" and "poll_status (polls e n) = Some v" and "terminal v"
  shows "poll_loop e hs rid (clock s) 0 s =
     (if v = JStr ''COMPLETE'' then Done
      else Return (500, JObj [(''error'', JStr ''Model generation failed.'')]),
      polled e hs rid n s)"
  using assms(3)
  by (auto simp: poll_loop_until [OF assms(1)] poll_loop_read [OF _ assms(2)]
        terminal_def polled_def)

lemma poll_loop_until_transport:
  assumes "pending_until e n" and "polls e n = Failed d m"
  shows "poll_loop e hs rid (clock s) 0 s = (Raise (Exn RequestException m), polled e hs rid n s)"
  by (simp add: poll_loop_until [OF assms(1)] poll_loop_transport [OF _ assms(2)] polled_def)

lemma fetch_result_answered:
  assumes "answered (fetch e) = Some b"
  shows "fetch_result e hs rid s =
     (case image_url_of b of
        Some u \<Rightarrow> (Inr (200, JObj [(''imageUrl'', u)]), fetched e hs rid s)
      | None \<Rightarrow>
          (Inr (500, JObj [(''error'',
             JStr ''Could not parse image URL from model response.'')]),
           print_data ''Unexpected result structure:'' b (fetched e hs rid s)))"
proof -
  from answered_SomeD [OF assms] obtain d r where out: "fetch e = Replied d r"
    and ok: "\<not> (400 \<le> status_code r \<and> status_code r < 600)"
    and body: "content r = Inr b" by blast
  show ?thesis
  proof (cases "image_url_of b")
    case None
    from extract_image_url_None [OF None] obtain ex where
      "extract_image_url b = Inl ex" "exn_class_of ex \<in> set [KeyError, IndexError, TypeError]"
      by (auto simp: parse_failure_def split: sum.splits)
    with None show ?thesis
      by (simp add: fetch_result_def out body raise_for_status_ok [OF ok] requests_get_def
            request_call_def response_json_def fetched_def jsonify_def)
  next
    case (Some u)
    with extract_image_url_Some [OF Some] show ?thesis
      by (simp add: fetch_result_def out body raise_for_status_ok [OF ok] requests_get_def
            request_call_def response_json_def fetched_def jsonify_def)
  qed
qed




section \<open>What gets logged\<close>

lemma effects_emit [simp]: "effects (emit ev s) = effects s @ [ev]"
  by (simp add: effects_def emit_def)

lemma effects_advance [simp]: "effects (advance d s) = effects s"
  by (simp add: effects_def advance_def)

lemma effects_submitted [simp]:
  "effects (submitted e p s) = effects s @ [Post Api_url (request_headers e) (submit_payload p)]"
  by (simp add: submitted_def)

lemma effects_polled [simp]:
  "effects (polled e hs rid n s) = effects s @ polling_log hs rid n @ [Get (Status_url rid) hs]"
  by (simp add: polled_def status_call_def effects_rounds)

lemma effects_fetched [simp]:
  "effects (fetched e hs rid s) = effects s @ [Get (Result_url rid) hs]"
  by (simp add: fetched_def)

lemma actions_except_clauses [simp]:
  "actions (snd (except_clauses ex s)) = actions s"
  by (simp add: except_clauses_def print_msg_def actions_def)

lemma actions_fetch_result:
  "actions (snd (fetch_result e hs rid s)) = actions s @ [Get (Result_url rid) hs]"
  by (simp add: fetch_result_def requests_get_def request_call_def print_data_def actions_def
        split: outcome.splits sum.splits)

lemma filter_polling_log_status [simp]:
  "filter is_status_call (polling_log hs rid n) = replicate n (Get (Status_url rid) hs)"
  by (induction n) (simp_all add: polling_log_def)

lemma filter_polling_log_outbound [simp]:
  "filter outbound (polling_log hs rid n) = replicate n (Get (Status_url rid) hs)"
  by (induction n) (simp_all add: polling_log_def)

lemma filter_polling_log_printing [simp]:
  "filter (\<lambda>ev. \<not> printing ev) (polling_log hs rid n) = polling_log hs rid n"
  by (induction n) (simp_all add: polling_log_def)

lemma calls_actions: "calls s = filter outbound (actions s)"
  by (auto simp: calls_def actions_def intro!: filter_cong elim: outbound.elims)

lemma trace_submitted:
  "trace (submitted e p s) =
     trace s @ [(clock s, Post Api_url (request_headers e) (submit_payload p))]"
  by (simp add: submitted_def advance_def emit_def)

lemma clock_submitted: "clock (submitted e p s) = clock s + int (duration (submit e))"
  by (simp add: submitted_def advance_def emit_def)

lemma trace_fetched:
  "trace (fetched e hs rid s) = trace s @ [(clock s, Get (Result_url rid) hs)]"
  by (simp add: fetched_def advance_def emit_def)

lemma filter_polling_id: "list_all polling new \<Longrightarrow> filter polling new = new"
  by (induction new) auto

section \<open>Running into the deadline\<close>

lemma rounds_Suc_end:
  "rounds e hs rid i (Suc n) s =
     time_sleep (oversleep e (i + n)) POLL_INTERVAL
       (status_call e hs rid (i + n) (rounds e hs rid i n s))"
  by (induction n arbitrary: i s) simp_all




lemma poll_loop_times_out:
  assumes "pending_until e m" and "pending (polls e m)"
    and "int (elapsed e (Suc m)) > timeout"
  shows "poll_loop e hs rid (clock s) 0 s =
     (Return (504, JObj [(''error'', JStr ''Request timed out while waiting for model.'')]),
      rounds e hs rid 0 (Suc m) s)"
proof -
  let ?sm = "rounds e hs rid 0 m s"
  have "poll_loop e hs rid (clock s) 0 s = poll_loop e hs rid (clock s) m ?sm"
    by (rule poll_loop_until(1) [OF assms(1)])
  also have "\<dots> = poll_loop e hs rid (clock s) (Suc m) (rounds e hs rid 0 (Suc m) s)"
    using poll_loop_pending [OF poll_loop_until(2) [OF assms(1)] assms(2)]
    by (simp add: rounds_Suc_end del: rounds.simps)
  also have "\<dots> = (Return (504, JObj [(''error'',
        JStr ''Request timed out while waiting for model.'')]), rounds e hs rid 0 (Suc m) s)"
    using assms(3)
    by (intro poll_loop_timeout) (simp add: clock_rounds elapsed_eq del: rounds.simps)
  finally show ?thesis .
qed


section \<open>Every way the loop and the handler can end\<close>

lemma poll_loop_stop:
  assumes "\<not> timeout < clock s - st" and "\<not> pending (polls e i)"
  shows "\<exists>x. poll_loop e hs rid st i s = (x, status_call e hs rid i s)
           \<and> (x = Done \<or> x = Return job_failed \<or> (\<exists>ex. x = Raise ex))"
proof (cases "poll_status (polls e i)")
  case None
  then show ?thesis
    using assms(1)
    apply (subst poll_loop.simps)
    apply (auto simp: poll_status_def answered_def requests_get_def request_call_def
        raise_for_status_def response_json_def status_call_def
        split: outcome.splits option.splits sum.splits json.splits if_splits)
    done
next
  case (Some v)
  with assms(2) have "terminal v" by (simp add: pending_def)
  then show ?thesis
    by (auto simp: poll_loop_read [OF assms(1) Some] terminal_def job_failed_def)
qed

lemma poll_loop_outcome:
  "\<exists>new. loop_outcome st s (poll_loop e hs rid st i s) new"
proof (induction "nat (st + timeout + 1 - clock s)" arbitrary: i s rule: less_induct)
  case less
  show ?case
  proof (cases "timeout < clock s - st")
    case True
    then have "loop_outcome st s (poll_loop e hs rid st i s) []"
      by (simp add: poll_loop_timeout loop_outcome_def timed_out_def)
    then show ?thesis ..
  next
    case False
    show ?thesis
    proof (cases "pending (polls e i)")
      case stop: False
      from poll_loop_stop [OF False stop, of hs rid] obtain x where
        x: "poll_loop e hs rid st i s = (x, status_call e hs rid i s)"
        and kinds: "x = Done \<or> x = Return job_failed \<or> (\<exists>ex. x = Raise ex)"
        by blast
      from kinds False
      have "loop_outcome st s (poll_loop e hs rid st i s) [(clock s, Get (Status_url rid) hs)]"
        by (auto simp: x loop_outcome_def polling_def)
      then show ?thesis ..
    next
      case True
      let ?s1 = "time_sleep (oversleep e i) POLL_INTERVAL (status_call e hs rid i s)"
      have step: "poll_loop e hs rid st i s = poll_loop e hs rid st (Suc i) ?s1"
        by (rule poll_loop_pending [OF False True])
      have "nat (st + timeout + 1 - clock ?s1) < nat (st + timeout + 1 - clock s)"
        using False by (simp add: POLL_INTERVAL_def)
      from less [OF this] obtain new where
        new: "loop_outcome st ?s1 (poll_loop e hs rid st (Suc i) ?s1) new"
        by blast
      let ?d = "int (duration (polls e i))"
      have "loop_outcome st s (poll_loop e hs rid st i s)
              ((clock s, Get (Status_url rid) hs) # (clock s + ?d, Sleep POLL_INTERVAL) # new)"
        using new False
        by (auto simp: step loop_outcome_def polling_def split: flow.splits if_splits)
      then show ?thesis ..
    qed
  qed
qed

lemma fetch_result_cases:
  "(\<exists>x. fetch_result e hs rid s = (x, fetched e hs rid s)
        \<and> ((\<exists>u. x = Inr (200, JObj [(''imageUrl'', u)])) \<or> (\<exists>ex. x = Inl ex)))
   \<or> (\<exists>b. fetch_result e hs rid s =
          (Inr unparseable, print_data ''Unexpected result structure:'' b (fetched e hs rid s)))"
  by (auto simp: fetch_result_def requests_get_def request_call_def fetched_def jsonify_def
        unparseable_def split: outcome.splits sum.splits)

lemma truthy_prompt_submits:
  assumes "\<not> key_missing e" and "prompt_of rq = Some p" and "truthy p"
  shows "try_block e rq s =
     (case requests_post (submit e) Api_url (request_headers e) (submit_payload p) s of
        (Inl ex, s1) \<Rightarrow> (Inl ex, s1)
      | (Inr submit_response, s1) \<Rightarrow>
          (case raise_for_status submit_response of
             Inl ex \<Rightarrow> (Inl ex, s1)
           | Inr u \<Rightarrow>
               (case response_json submit_response of
                  Inl ex \<Rightarrow> (Inl ex, s1)
                | Inr submit_data \<Rightarrow>
                    (case dict_get submit_data ''request_id'' of
                       Inl ex \<Rightarrow> (Inl ex, s1)
                     | Inr request_id \<Rightarrow>
                         if \<not> truthy request_id
                         then (Inr (500, jsonify [(''error'',
                                 JStr ''Failed to submit job to DO.'')]), s1)
                         else
                           (case poll_loop e (request_headers e) request_id (clock s1) 0 s1 of
                              (Done, s2) \<Rightarrow> fetch_result e (request_headers e) request_id s2
                            | (Return r, s2) \<Rightarrow> (Inr r, s2)
                            | (Raise ex, s2) \<Rightarrow> (Inl ex, s2))))))"
proof -
  from prompt_ofD [OF assms(2)] obtain kv where "rq = Inr (JObj kv)"
    "map_of kv ''prompt'' = Some p" by blast
  with assms(3) show ?thesis by (simp add: try_block_def)
qed

lemma try_block_no_prompt:
  assumes "\<forall>p. prompt_of rq = Some p \<longrightarrow> \<not> truthy p"
  shows "(\<exists>ex. try_block e rq s = (Inl ex, s)) \<or> try_block e rq s = (Inr no_prompt, s)"
proof (cases rq)
  case (Inl ex)
  then show ?thesis by (simp add: try_block_def)
next
  case (Inr v)
  with assms show ?thesis
    by (cases v) (auto simp: try_block_def prompt_of_def no_prompt_def jsonify_def
        split: option.splits)
qed

lemma try_block_no_handle:
  assumes "\<not> key_missing e" and "prompt_of rq = Some p" and "truthy p"
    and "submit_handle e = None"
  shows "(\<exists>ex. try_block e rq s = (Inl ex, submitted e p s))
         \<or> try_block e rq s = (Inr submit_failed, submitted e p s)"
proof (cases "answered (submit e)")
  case None
  then show ?thesis
    by (auto simp: truthy_prompt_submits [OF assms(1-3)] answered_def requests_post_def
          request_call_def raise_for_status_def response_json_def submitted_def
          split: outcome.splits sum.splits if_splits)
next
  case (Some b)
  from answered_SomeD [OF Some] obtain d r where out: "submit e = Replied d r"
    and ok: "\<not> (400 \<le> status_code r \<and> status_code r < 600)"
    and body: "content r = Inr b" by blast
  from assms(4) Some show ?thesis
    by (cases b)
       (auto simp: truthy_prompt_submits [OF assms(1-3)] out body raise_for_status_ok [OF ok]
          requests_post_def request_call_def response_json_def submitted_def jsonify_def
          submit_handle_def request_id_of_def submit_failed_def
          split: option.splits if_splits)
qed

lemma try_block_cases:
  assumes "\<not> key_missing e"
  shows "(\<exists>ex. try_block e rq s = (Inl ex, s))
         \<or> try_block e rq s = (Inr no_prompt, s)
         \<or> (\<exists>p ex. try_block e rq s = (Inl ex, submitted e p s))
         \<or> (\<exists>p. try_block e rq s = (Inr submit_failed, submitted e p s))
         \<or> (\<exists>p rid. accepted e rq p rid)"
proof (cases "\<exists>p. prompt_of rq = Some p \<and> truthy p")
  case False
  then have "\<forall>p. prompt_of rq = Some p \<longrightarrow> \<not> truthy p" by blast
  from try_block_no_prompt [OF this, of e s] show ?thesis by blast
next
  case True
  then obtain p where p: "prompt_of rq = Some p" "truthy p" by blast
  show ?thesis
  proof (cases "submit_handle e")
    case None
    from try_block_no_handle [OF assms p None, of s] show ?thesis by blast
  next
    case (Some rid)
    with assms p have "accepted e rq p rid" by (simp add: accepted_def)
    then show ?thesis by blast
  qed
qed

lemma run_outcome_except:
  assumes "trace s1 = trace s @ new" and "poll_shape st (filter polling new)"
  shows "\<exists>m. run_outcome st s (except_clauses ex s1) (new @ [(clock s1, Print m)])"
  using assms
  by (auto simp: run_outcome_def except_clauses_def print_msg_def emit_def polling_def
        jsonify_def POLL_INTERVAL_def)

lemma run_outcome_rejected:
  assumes "\<not> key_missing e" and "\<forall>p rid. \<not> accepted e rq p rid"
  shows "\<exists>new. run_outcome st s (generate_image e rq s) new"
proof -
  have start: "trace s = trace s @ []" "poll_shape st (filter polling [])" by simp_all
  have sub: "trace (submitted e p s) =
     trace s @ [(clock s, Post Api_url (request_headers e) (submit_payload p))]"
    "poll_shape st (filter polling
       [(clock s, Post Api_url (request_headers e) (submit_payload p))])" for p
    by (simp_all add: trace_submitted polling_def)
  from try_block_cases [OF assms(1), of rq s] assms(2)
  consider ex where "try_block e rq s = (Inl ex, s)"
    | "try_block e rq s = (Inr no_prompt, s)"
    | p ex where "try_block e rq s = (Inl ex, submitted e p s)"
    | p where "try_block e rq s = (Inr submit_failed, submitted e p s)"
    by blast
  then show ?thesis
  proof cases
    case 1
    with assms(1) run_outcome_except [OF start, of ex] show ?thesis
      by (auto simp: generate_image_def)
  next
    case 2
    with assms(1) have "run_outcome st s (generate_image e rq s) []"
      by (simp add: generate_image_def run_outcome_def no_prompt_def)
    then show ?thesis ..
  next
    case 3
    with assms(1) run_outcome_except [OF sub, of ex p] show ?thesis
      by (auto simp: generate_image_def)
  next
    case 4
    with assms(1) have "run_outcome st s (generate_image e rq s)
        [(clock s, Post Api_url (request_headers e) (submit_payload p))]"
      by (simp add: generate_image_def run_outcome_def submit_failed_def trace_submitted
            polling_def)
    then show ?thesis ..
  qed
qed

lemma run_outcome_accepted:
  assumes "accepted e rq p rid"
  shows "\<exists>new. run_outcome (clock s + int (duration (submit e))) s (generate_image e rq s) new"
proof -
  let ?hs = "request_headers e"
  let ?s0 = "submitted e p s"
  let ?st = "clock s + int (duration (submit e))"
  let ?post = "(clock s, Post Api_url ?hs (submit_payload p))"
  have st: "clock ?s0 = ?st" by (rule clock_submitted)
  from poll_loop_outcome [of ?st ?s0 e ?hs rid 0] obtain new where
    lo: "loop_outcome ?st ?s0 (poll_loop e ?hs rid ?st 0 ?s0) new" by blast
  obtain fl s2 where loop: "poll_loop e ?hs rid ?st 0 ?s0 = (fl, s2)"
    by (cases "poll_loop e ?hs rid ?st 0 ?s0")
  from lo loop have tr: "trace s2 = trace s @ ?post # new"
    and pol: "list_all polling new" and shape: "poll_shape ?st new"
    by (simp_all add: loop_outcome_def trace_submitted)
  have flt: "filter polling (?post # new) = new"
    using pol by (simp add: filter_polling_id polling_def)
  have run: "generate_image e rq s =
     (case fl of
        Done \<Rightarrow>
          (case fetch_result e ?hs rid s2 of
             (Inr r, s3) \<Rightarrow> (r, s3)
           | (Inl ex, s3) \<Rightarrow> except_clauses ex s3)
      | Return r \<Rightarrow> (r, s2)
      | Raise ex \<Rightarrow> except_clauses ex s2)"
    by (simp add: generate_image_accepted [OF assms] st loop)
  show ?thesis
  proof (cases fl)
    case (Return r)
    from lo loop Return st
    have "r = timed_out \<and> timeout < clock s2 - ?st \<and> new \<noteq> []
            \<and> snd (last new) = Sleep POLL_INTERVAL
          \<or> r = job_failed"
      by (auto simp: loop_outcome_def timeout_def split: if_splits)
    then have "run_outcome ?st s (generate_image e rq s) (?post # new)"
      unfolding run_outcome_def flt
      by (auto simp: run Return tr shape timed_out_def job_failed_def)
    then show ?thesis ..
  next
    case (Raise ex)
    from run_outcome_except [of s2 s "?post # new" ?st ex] tr flt shape
    show ?thesis by (auto simp: run Raise)
  next
    case Done
    from fetch_result_cases [of e ?hs rid s2]
    consider x where "fetch_result e ?hs rid s2 = (x, fetched e ?hs rid s2)"
        "(\<exists>u. x = Inr (200, JObj [(''imageUrl'', u)])) \<or> (\<exists>ex. x = Inl ex)"
      | b where "fetch_result e ?hs rid s2 =
          (Inr unparseable, print_data ''Unexpected result structure:'' b (fetched e ?hs rid s2))"
      by blast
    then show ?thesis
    proof cases
      case 1
      let ?new = "?post # new @ [(clock s2, Get (Result_url rid) ?hs)]"
      have tr3: "trace (fetched e ?hs rid s2) = trace s @ ?new"
        by (simp add: trace_fetched tr)
      have flt3: "poll_shape ?st (filter polling ?new)"
        using flt shape by (simp add: polling_def)
      from 1(2) show ?thesis
      proof
        assume "\<exists>u. x = Inr (200, JObj [(''imageUrl'', u)])"
        then have "run_outcome ?st s (generate_image e rq s) ?new"
          using flt3 by (auto simp: run Done 1(1) run_outcome_def tr3)
        then show ?thesis ..
      next
        assume "\<exists>ex. x = Inl ex"
        then obtain ex where "x = Inl ex" ..
        with run_outcome_except [OF tr3 flt3, of ex] show ?thesis
          by (auto simp: run Done 1(1))
      qed
    next
      case 2
      have "run_outcome ?st s (generate_image e rq s)
          (?post # new @ [(clock s2, Get (Result_url rid) ?hs),
             (clock (fetched e ?hs rid s2), Print_data ''Unexpected result structure:'' b)])"
        using flt shape
        by (simp add: run Done 2 run_outcome_def print_data_def emit_def trace_fetched tr
              unparseable_def polling_def)
      then show ?thesis ..
    qed
  qed
qed

lemma run_outcome_always:
  "\<exists>new. run_outcome (clock s + int (duration (submit e))) s (generate_image e rq s) new"
proof (cases "key_missing e")
  case True
  then have "run_outcome (clock s + int (duration (submit e))) s (generate_image e rq s) []"
    by (simp add: generate_image_def run_outcome_def jsonify_def)
  then show ?thesis ..
next
  case False
  show ?thesis
  proof (cases "\<exists>p rid. accepted e rq p rid")
    case True
    then show ?thesis using run_outcome_accepted by blast
  next
    case no: False
    then show ?thesis using run_outcome_rejected [OF False] by blast
  qed
qed

section \<open>Calls that fail\<close>











section \<open>Facts about the sample runs\<close>

lemmas example_defs =
  example_env_def example_request_def example_start_def example_result_def ok_response_def
  failing_env_def stalled_env_def garbled_env_def handleless_env_def

lemmas vocabulary_defs =
  accepted_def key_missing_def prompt_of_def submit_handle_def answered_def request_id_of_def
  pending_until_def pending_def poll_status_def terminal_def elapsed_def round_time_def
  POLL_INTERVAL_def timeout_def lacks_handle_def image_url_of_def

lemma example_accepted:
  "accepted example_env example_request (JStr ''a cat'') (JStr ''job-1'')"
  by (simp add: accepted_def key_missing_def prompt_of_def submit_handle_def answered_def
        request_id_of_def example_env_def example_request_def ok_response_def)

lemma example_pending_until: "pending_until example_env 2"
  by (simp add: pending_until_def pending_def poll_status_def answered_def terminal_def
        elapsed_def round_time_def POLL_INTERVAL_def timeout_def example_env_def
        ok_response_def eval_nat_numeral)

lemma example_complete: "poll_status (polls example_env 2) = Some (JStr ''COMPLETE'')"
  by (simp add: poll_status_def answered_def example_env_def ok_response_def)

lemma example_fetch: "answered (fetch example_env) = Some example_result"
  by (simp add: answered_def example_env_def ok_response_def)

lemma example_url: "image_url_of example_result = Some (JStr ''https://x/y.png'')"
  by (simp add: image_url_of_def example_result_def)

lemma failing_accepted: "accepted failing_env example_request (JStr ''a cat'') (JStr ''job-1'')"
  by (simp add: vocabulary_defs example_defs)

lemma failing_pending_until: "pending_until failing_env 1"
  by (simp add: vocabulary_defs example_defs)

lemma failing_status: "poll_status (polls failing_env 1) = Some (JStr ''FAILED'')"
  by (simp add: vocabulary_defs example_defs)

lemma stalled_accepted: "accepted stalled_env example_request (JStr ''a cat'') (JStr ''job-1'')"
  by (simp add: vocabulary_defs example_defs)



















lemma stalled_reply:
  "fst (generate_image stalled_env example_request example_start) =
     (504, JObj [(''error'', JStr ''Request timed out while waiting for model.'')])"
proof -
  have pu: "pending_until stalled_env 2"
    by (simp add: vocabulary_defs example_defs eval_nat_numeral)
  have pm: "pending (polls stalled_env 2)"
    by (simp add: vocabulary_defs example_defs)
  have late: "timeout < int (elapsed stalled_env (Suc 2))"
    by (simp add: vocabulary_defs example_defs eval_nat_numeral)
  show ?thesis
    by (simp add: generate_image_accepted [OF stalled_accepted]
          poll_loop_times_out [OF pu pm late] del: rounds.simps)
qed

section \<open>The happy path\<close>

text \<open>
  C1. When the request is accepted, the job is reported complete within the timeout
  window, and the fetch call is answered with a body in which the path result, output,
  images, first element, url leads to a string \<open>u\<close>, the handler replies 200 with the
  body \<open>{"imageUrl": u}\<close>.
\<close>

theorem well_formed_result_returned:
  assumes "accepted e rq p rid" and "pending_until e n"
    and "poll_status (polls e n) = Some (JStr ''COMPLETE'')"
    and "answered (fetch e) = Some b" and "image_url_of b = Some (JStr u)"
  shows "fst (generate_image e rq s) = (200, JObj [(''imageUrl'', JStr u)])"
proof -
  have "terminal (JStr ''COMPLETE'')" by (simp add: terminal_def)
  from poll_loop_until_read [OF assms(2,3) this]
  show ?thesis
    by (simp add: generate_image_accepted [OF assms(1)] fetch_result_answered [OF assms(4)]
          assms(5))
qed

text \<open>The sample run returns the URL of its one image.\<close>

theorem well_formed_result_returned_witness:
  "accepted example_env example_request (JStr ''a cat'') (JStr ''job-1'')
   \<and> pending_until example_env 2
   \<and> poll_status (polls example_env 2) = Some (JStr ''COMPLETE'')
   \<and> answered (fetch example_env) = Some example_result
   \<and> image_url_of example_result = Some (JStr ''https://x/y.png'')
   \<and> fst (generate_image example_env example_request example_start)
       = (200, JObj [(''imageUrl'', JStr ''https://x/y.png'')])"
  using example_accepted example_pending_until example_complete example_fetch example_url
    well_formed_result_returned [OF example_accepted example_pending_until
      example_complete example_fetch example_url, of example_start]
  by simp

text \<open>
  C2. When the first \<open>n\<close> status calls report a non-terminal status, the next one
  reports \<open>COMPLETE\<close> and the timeout is not exceeded, the handler's calls and sleeps
  are, in this order: the submit call; \<open>n\<close> times a status call followed by a sleep of
  the poll interval; one more status call; one fetch call. So its outbound calls are
  the submit call, exactly \<open>n + 1\<close> status calls and then exactly one fetch call.
\<close>

theorem polls_then_one_fetch:
  assumes "accepted e rq p rid" and "pending_until e n"
    and "poll_status (polls e n) = Some (JStr ''COMPLETE'')"
  shows "actions (snd (generate_image e rq s)) =
           actions s @ Post Api_url (request_headers e) (submit_payload p)
             # polling_log (request_headers e) rid n
             @ [Get (Status_url rid) (request_headers e), Get (Result_url rid) (request_headers e)]
         \<and> calls (snd (generate_image e rq s)) =
           calls s @ Post Api_url (request_headers e) (submit_payload p)
             # replicate (n + 1) (Get (Status_url rid) (request_headers e))
             @ [Get (Result_url rid) (request_headers e)]"
proof -
  let ?hs = "request_headers e"
  let ?s2 = "polled e ?hs rid n (submitted e p s)"
  have "terminal (JStr ''COMPLETE'')" by (simp add: terminal_def)
  from poll_loop_until_read [OF assms(2,3) this]
  have run: "generate_image e rq s =
      (case fetch_result e ?hs rid ?s2 of
         (Inr r, s3) \<Rightarrow> (r, s3)
       | (Inl ex, s3) \<Rightarrow> except_clauses ex s3)"
    by (simp add: generate_image_accepted [OF assms(1)])
  have "actions (snd (generate_image e rq s)) = actions (snd (fetch_result e ?hs rid ?s2))"
    by (simp add: run split: prod.splits sum.splits)
  also have "\<dots> = actions ?s2 @ [Get (Result_url rid) ?hs]"
    by (rule actions_fetch_result)
  also have "actions ?s2 = actions s @ Post Api_url ?hs (submit_payload p)
             # polling_log ?hs rid n @ [Get (Status_url rid) ?hs]"
    by (simp add: actions_def)
  finally have a: "actions (snd (generate_image e rq s)) =
           actions s @ Post Api_url ?hs (submit_payload p) # polling_log ?hs rid n
             @ [Get (Status_url rid) ?hs, Get (Result_url rid) ?hs]"
    by simp
  have "calls (snd (generate_image e rq s)) =
           calls s @ Post Api_url ?hs (submit_payload p)
             # replicate (n + 1) (Get (Status_url rid) ?hs) @ [Get (Result_url rid) ?hs]"
    by (simp add: calls_actions a replicate_append_same)
  with a show ?thesis by simp
qed

text \<open>The sample run: two rounds, a third status call, the fetch.\<close>

theorem polls_then_one_fetch_witness:
  "accepted example_env example_request (JStr ''a cat'') (JStr ''job-1'')
   \<and> pending_until example_env 2
   \<and> poll_status (polls example_env 2) = Some (JStr ''COMPLETE'')
   \<and> actions (snd (generate_image example_env example_request example_start)) =
       [Post Api_url (request_headers example_env) (submit_payload (JStr ''a cat'')),
        Get (Status_url (JStr ''job-1'')) (request_headers example_env), Sleep 3,
        Get (Status_url (JStr ''job-1'')) (request_headers example_env), Sleep 3,
        Get (Status_url (JStr ''job-1'')) (request_headers example_env),
        Get (Result_url (JStr ''job-1'')) (request_headers example_env)]"
  using example_accepted example_pending_until example_complete
    polls_then_one_fetch [OF example_accepted example_pending_until example_complete,
      of example_start]
  by (simp add: actions_def effects_def example_start_def polling_log_def POLL_INTERVAL_def
        eval_nat_numeral)

section \<open>Timeout and failed jobs\<close>



text \<open>
  C4. When, within the timeout window, a status call reports \<open>FAILED\<close> or \<open>ERROR\<close>
  after \<open>n\<close> non-terminal ones, the handler replies 500 with a JSON error body, and
  that status call is the last thing it does: no further status call, no fetch call.
\<close>

theorem failed_job_stops_polling:
  assumes "accepted e rq p rid" and "pending_until e n"
    and "poll_status (polls e n) = Some st"
    and "st = JStr ''FAILED'' \<or> st = JStr ''ERROR''"
  shows "fst (generate_image e rq s) =
           (500, JObj [(''error'', JStr ''Model generation failed.'')])
         \<and> effects (snd (generate_image e rq s)) =
           effects s @ Post Api_url (request_headers e) (submit_payload p)
             # polling_log (request_headers e) rid n
             @ [Get (Status_url rid) (request_headers e)]"
proof -
  from assms(4) have t: "terminal st" and nc: "st \<noteq> JStr ''COMPLETE''"
    by (auto simp: terminal_def)
  from poll_loop_until_read [OF assms(2,3) t] nc
  show ?thesis
    by (simp add: generate_image_accepted [OF assms(1)])
qed

text \<open>The job that fails at the second status call.\<close>

theorem failed_job_stops_polling_witness:
  "accepted failing_env example_request (JStr ''a cat'') (JStr ''job-1'')
   \<and> pending_until failing_env 1
   \<and> poll_status (polls failing_env 1) = Some (JStr ''FAILED'')
   \<and> fst (generate_image failing_env example_request example_start) =
        (500, JObj [(''error'', JStr ''Model generation failed.'')])
   \<and> effects (snd (generate_image failing_env example_request example_start)) =
        [Post Api_url (request_headers failing_env) (submit_payload (JStr ''a cat'')),
         Get (Status_url (JStr ''job-1'')) (request_headers failing_env), Sleep 3,
         Get (Status_url (JStr ''job-1'')) (request_headers failing_env)]"
  using failing_accepted failing_pending_until failing_status
    failed_job_stops_polling [OF failing_accepted failing_pending_until failing_status,
      of example_start]
  by (simp add: effects_def example_start_def polling_log_def POLL_INTERVAL_def)

section \<open>A result that cannot be read\<close>



section \<open>Rejections before any network call\<close>

text \<open>
  C6. When the credential is absent (unset, or set to the empty string), the handler
  replies 500 with a JSON error body, whatever the request, and does nothing else: the
  state, and so the list of outbound calls, is unchanged.
\<close>

theorem missing_key_rejected:
  "key_missing e \<Longrightarrow>
     generate_image e rq s =
       ((500, JObj [(''error'',
           JStr ''Server is missing MODEL_ACCESS_KEY environment variable.'')]), s)
     \<and> error_field (snd (fst (generate_image e rq s))) \<noteq> None
     \<and> calls (snd (generate_image e rq s)) = calls s"
  by (simp add: generate_image_def jsonify_def)

theorem missing_key_rejected_witness:
  "key_missing \<lparr>MODEL_ACCESS_KEY = None, submit = Failed 0 [], polls = (\<lambda>i. Failed 0 []),
      fetch = Failed 0 [], oversleep = (\<lambda>i. 0)\<rparr>
   \<and> generate_image
        \<lparr>MODEL_ACCESS_KEY = None, submit = Failed 0 [], polls = (\<lambda>i. Failed 0 []),
           fetch = Failed 0 [], oversleep = (\<lambda>i. 0)\<rparr>
        (Inr (JObj [(''prompt'', JStr ''a cat'')])) \<lparr>clock = 0, trace = []\<rparr>
      = ((500, JObj [(''error'',
            JStr ''Server is missing MODEL_ACCESS_KEY environment variable.'')]),
         \<lparr>clock = 0, trace = []\<rparr>)"
proof -
  have h: "key_missing \<lparr>MODEL_ACCESS_KEY = None, submit = Failed 0 [],
      polls = (\<lambda>i. Failed 0 []), fetch = Failed 0 [], oversleep = (\<lambda>i. 0)\<rparr>"
    by (simp add: key_missing_def)
  show ?thesis
    using h missing_key_rejected [OF h, of "Inr (JObj [(''prompt'', JStr ''a cat'')])"
        "\<lparr>clock = 0, trace = []\<rparr>"]
    by simp
qed




section \<open>A submit response without a job handle\<close>

text \<open>
  C8. When the submit call is answered with a non-error status and a JSON body that
  lacks a job handle (no \<open>request_id\<close> field, or an empty one), the handler replies 500
  with a JSON error body, and the submit call is its only call: no status call, no
  fetch call, no sleep.
\<close>

theorem missing_handle_rejected:
  assumes "\<not> key_missing e" and "prompt_of rq = Some p" and "truthy p"
    and "answered (submit e) = Some b" and "lacks_handle b"
  shows "fst (fst (generate_image e rq s)) = 500
         \<and> error_field (snd (fst (generate_image e rq s))) \<noteq> None
         \<and> actions (snd (generate_image e rq s)) =
             actions s @ [Post Api_url (request_headers e) (submit_payload p)]"
proof -
  from answered_SomeD [OF assms(4)] obtain d r where out: "submit e = Replied d r"
    and ok: "\<not> (400 \<le> status_code r \<and> status_code r < 600)"
    and body: "content r = Inr b" by blast
  have tb: "try_block e rq s =
      (case dict_get b ''request_id'' of
         Inl ex \<Rightarrow> (Inl ex, submitted e p s)
       | Inr request_id \<Rightarrow>
           (Inr (500, JObj [(''error'', JStr ''Failed to submit job to DO.'')]),
            submitted e p s))"
    using assms(5)
    by (cases b)
       (auto simp: truthy_prompt_submits [OF assms(1-3)] out body raise_for_status_ok [OF ok]
          requests_post_def request_call_def response_json_def submitted_def jsonify_def
          lacks_handle_def request_id_of_def split: option.splits)
  show ?thesis
    using assms(1)
    by (cases b)
       (simp_all add: generate_image_def tb except_clauses_def print_msg_def actions_def
          jsonify_def)
qed

theorem missing_handle_rejected_witness:
  "\<not> key_missing handleless_env
   \<and> prompt_of example_request = Some (JStr ''a cat'')
   \<and> truthy (JStr ''a cat'')
   \<and> answered (submit handleless_env) = Some (JObj [])
   \<and> lacks_handle (JObj [])
   \<and> fst (fst (generate_image handleless_env example_request example_start)) = 500
   \<and> error_field (snd (fst (generate_image handleless_env example_request example_start)))
       \<noteq> None
   \<and> actions (snd (generate_image handleless_env example_request example_start)) =
       [Post Api_url (request_headers handleless_env) (submit_payload (JStr ''a cat''))]"
proof -
  have k: "\<not> key_missing handleless_env" by (simp add: vocabulary_defs example_defs)
  have p: "prompt_of example_request = Some (JStr ''a cat'')"
    by (simp add: vocabulary_defs example_defs)
  have t: "truthy (JStr ''a cat'')" by simp
  have a: "answered (submit handleless_env) = Some (JObj [])"
    by (simp add: vocabulary_defs example_defs)
  have l: "lacks_handle (JObj [])" by (simp add: vocabulary_defs)
  from k p t a l missing_handle_rejected [OF k p t a l, of example_start]
  show ?thesis by (simp add: actions_def effects_def example_start_def)
qed

section \<open>Errors never leave the handler as exceptions\<close>



section \<open>Where the deadline is checked\<close>

text \<open>
  C10. In every run, the status calls and sleeps logged have this shape: a status call,
  stamped with a clock at most 120 time units after the submit call returned, then a
  sleep of the poll interval, then the next such status call, and so on. A 504 reply
  comes right after a sleep (never between a status call and its response), with the
  window exceeded. The window starts when the submit call returns, so the time the
  submit call takes does not count. In the loop itself the deadline check comes first
  (past the deadline no status call is made), and a non-terminal status is followed by
  the sleep and then by the next deadline check.
\<close>

theorem deadline_checked_before_each_status_call:
  "(\<exists>new. trace (snd (generate_image e rq s)) = trace s @ new
      \<and> poll_shape (clock s + int (duration (submit e))) (filter polling new)
      \<and> (fst (fst (generate_image e rq s)) = 504 \<longrightarrow>
           new \<noteq> [] \<and> snd (last new) = Sleep POLL_INTERVAL
           \<and> timeout
               < clock (snd (generate_image e rq s)) - (clock s + int (duration (submit e)))))
   \<and> (timeout < clock s1 - st \<longrightarrow>
        poll_loop e hs rid st i s1 =
          (Return (504, JObj [(''error'',
             JStr ''Request timed out while waiting for model.'')]), s1))
   \<and> (\<not> timeout < clock s1 - st \<and> pending (polls e i) \<longrightarrow>
        poll_loop e hs rid st i s1 =
          poll_loop e hs rid st (Suc i)
            (time_sleep (oversleep e i) POLL_INTERVAL (status_call e hs rid i s1)))"
proof -
  from run_outcome_always [of s e rq] obtain new where
    "run_outcome (clock s + int (duration (submit e))) s (generate_image e rq s) new" ..
  then have "trace (snd (generate_image e rq s)) = trace s @ new
      \<and> poll_shape (clock s + int (duration (submit e))) (filter polling new)
      \<and> (fst (fst (generate_image e rq s)) = 504 \<longrightarrow>
           new \<noteq> [] \<and> snd (last new) = Sleep POLL_INTERVAL
           \<and> timeout
               < clock (snd (generate_image e rq s)) - (clock s + int (duration (submit e))))"
    by (simp add: run_outcome_def)
  then have whole: "\<exists>new. trace (snd (generate_image e rq s)) = trace s @ new
      \<and> poll_shape (clock s + int (duration (submit e))) (filter polling new)
      \<and> (fst (fst (generate_image e rq s)) = 504 \<longrightarrow>
           new \<noteq> [] \<and> snd (last new) = Sleep POLL_INTERVAL
           \<and> timeout
               < clock (snd (generate_image e rq s)) - (clock s + int (duration (submit e))))"
    ..
  have late: "timeout < clock s1 - st \<longrightarrow>
        poll_loop e hs rid st i s1 =
          (Return (504, JObj [(''error'',
             JStr ''Request timed out while waiting for model.'')]), s1)"
    by (simp add: poll_loop_timeout)
  have early: "\<not> timeout < clock s1 - st \<and> pending (polls e i) \<longrightarrow>
        poll_loop e hs rid st i s1 =
          poll_loop e hs rid st (Suc i)
            (time_sleep (oversleep e i) POLL_INTERVAL (status_call e hs rid i s1))"
    using poll_loop_pending [of s1 st e i hs rid] by blast
  from whole late early show ?thesis by blast
qed

text \<open>
  The job that stays in progress while the submit call takes 500 time units: the window
  starts at 1500, and the handler gives up right after a sleep.
\<close>

theorem deadline_checked_before_each_status_call_witness:
  "fst (fst (generate_image stalled_env example_request example_start)) = 504
   \<and> (\<exists>new. trace (snd (generate_image stalled_env example_request example_start)) = new
        \<and> poll_shape 1500 (filter polling new)
        \<and> new \<noteq> [] \<and> snd (last new) = Sleep 3
        \<and> 120 < clock (snd (generate_image stalled_env example_request example_start)) - 1500)
   \<and> poll_loop stalled_env [] (JStr ''job-1'') 0 0 \<lparr>clock = 121, trace = []\<rparr> =
       (Return (504, JObj [(''error'', JStr ''Request timed out while waiting for model.'')]),
        \<lparr>clock = 121, trace = []\<rparr>)
   \<and> poll_loop stalled_env [] (JStr ''job-1'') 0 0 \<lparr>clock = 120, trace = []\<rparr> =
       poll_loop stalled_env [] (JStr ''job-1'') 0 (Suc 0)
         \<lparr>clock = 173,
            trace = [(120, Get (Status_url (JStr ''job-1'')) []), (170, Sleep 3)]\<rparr>"
proof -
  have code: "fst (fst (generate_image stalled_env example_request example_start)) = 504"
    by (simp add: stalled_reply)
  have pm: "pending (polls stalled_env 0)"
    by (simp add: vocabulary_defs example_defs)
  have run: "\<exists>new. trace (snd (generate_image stalled_env example_request example_start)) = new
        \<and> poll_shape 1500 (filter polling new)
        \<and> new \<noteq> [] \<and> snd (last new) = Sleep 3
        \<and> 120 < clock (snd (generate_image stalled_env example_request example_start)) - 1500"
    using code
      deadline_checked_before_each_status_call [where e = stalled_env
        and rq = example_request and s = example_start and hs = "[]" and rid = JNull
        and st = 0 and i = 0 and ?s1.0 = example_start]
    by (simp add: example_defs POLL_INTERVAL_def timeout_def)
  have late: "poll_loop stalled_env [] (JStr ''job-1'') 0 0 \<lparr>clock = 121, trace = []\<rparr> =
       (Return (504, JObj [(''error'', JStr ''Request timed out while waiting for model.'')]),
        \<lparr>clock = 121, trace = []\<rparr>)"
    using deadline_checked_before_each_status_call [where e = stalled_env
        and rq = example_request and s = example_start and hs = "[]"
        and rid = "JStr ''job-1''" and st = 0 and i = 0
        and ?s1.0 = "\<lparr>clock = 121, trace = []\<rparr>"]
    by (simp add: timeout_def)
  have early: "poll_loop stalled_env [] (JStr ''job-1'') 0 0 \<lparr>clock = 120, trace = []\<rparr> =
       poll_loop stalled_env [] (JStr ''job-1'') 0 (Suc 0)
         \<lparr>clock = 173,
            trace = [(120, Get (Status_url (JStr ''job-1'')) []), (170, Sleep 3)]\<rparr>"
    using pm deadline_checked_before_each_status_call [where e = stalled_env
        and rq = example_request and s = example_start and hs = "[]"
        and rid = "JStr ''job-1''" and st = 0 and i = 0
        and ?s1.0 = "\<lparr>clock = 120, trace = []\<rparr>"]
    by (simp add: timeout_def time_sleep_def status_call_def advance_def emit_def
          POLL_INTERVAL_def example_defs)
  from code run late early show ?thesis by blast
qed

end
